theory Spec2Isabelle
  imports Complex_Main
begin

section \<open>JavaScript values used by the server and the chart component\<close>

text \<open>
  Exceptions are values. The server code never throws on purpose; the only exception it
  can raise is the \<open>TypeError\<close> of reading a property of \<open>undefined\<close>. The chart
  component throws \<open>new Error(message)\<close> from \<open>componentDidMount\<close>.
\<close>

datatype js_error = TypeError | Error string

text \<open>
  A JavaScript number is \<open>NaN\<close>, an infinity or a finite number. Finite numbers are
  modelled as reals with exact arithmetic: doubles are exact on the integers below
  \<open>2^53\<close>, which covers every cursor and every sensor id that selects a series.
\<close>

datatype jsnum = NaN | PosInf | NegInf | Num real

text \<open>\<open>x + c\<close> and \<open>x - c\<close> for a finite constant \<open>c\<close>.\<close>

fun js_add :: "jsnum \<Rightarrow> real \<Rightarrow> jsnum" where
  "js_add (Num r) c = Num (r + c)"
| "js_add x c = x"

fun js_sub :: "jsnum \<Rightarrow> real \<Rightarrow> jsnum" where
  "js_sub (Num r) c = Num (r - c)"
| "js_sub x c = x"

text \<open>
  \<open>x % n\<close> where \<open>n\<close> is the length of an array: the remainder of the truncating
  division (the sign follows the dividend), \<open>NaN\<close> when \<open>n\<close> is 0 or \<open>x\<close> is not finite.
\<close>

definition trunc :: "real \<Rightarrow> int" where
  "trunc x = (if x < 0 then \<lceil>x\<rceil> else \<lfloor>x\<rfloor>)"

fun js_rem :: "jsnum \<Rightarrow> nat \<Rightarrow> jsnum" where
  "js_rem (Num r) n =
     (if n = 0 then NaN else Num (r - real n * of_int (trunc (r / real n))))"
| "js_rem x n = NaN"

text \<open>
  \<open>xs[j]\<close> for an array \<open>xs\<close> and a number \<open>j\<close>: the element when \<open>j\<close> is an integer
  with \<open>0 \<le> j < xs.length\<close>, and \<open>undefined\<close> (here \<open>None\<close>) otherwise, also for
  \<open>NaN\<close>, a fraction, a negative number or an infinity.
\<close>

fun js_nth :: "'a list \<Rightarrow> jsnum \<Rightarrow> 'a option" where
  "js_nth xs (Num r) =
     (if 0 \<le> r \<and> r = of_int \<lfloor>r\<rfloor> \<and> nat \<lfloor>r\<rfloor> < length xs
      then Some (xs ! nat \<lfloor>r\<rfloor>) else None)"
| "js_nth xs x = None"

text \<open>\<open>ToNumber\<close> of a field that holds a number or is missing (\<open>undefined\<close>).\<close>

fun ToNumber :: "real option \<Rightarrow> jsnum" where
  "ToNumber None = NaN"
| "ToNumber (Some r) = Num r"

text \<open>Truthiness of such a field: \<open>undefined\<close> and \<open>0\<close> are falsy.\<close>

fun truthy :: "real option \<Rightarrow> bool" where
  "truthy None = False"
| "truthy (Some r) = (r \<noteq> 0)"

text \<open>
  \<open>Math.max(...xs)\<close>: starts from \<open>-Infinity\<close>, returns \<open>NaN\<close> as soon as an argument
  is \<open>NaN\<close>, and otherwise keeps the greater number.
\<close>

fun js_less :: "jsnum \<Rightarrow> jsnum \<Rightarrow> bool" where
  "js_less (Num a) (Num b) = (a < b)"
| "js_less NegInf (Num b) = True"
| "js_less NegInf PosInf = True"
| "js_less (Num a) PosInf = True"
| "js_less x y = False"

fun max_loop :: "jsnum \<Rightarrow> jsnum list \<Rightarrow> jsnum" where
  "max_loop highest [] = highest"
| "max_loop highest (x # xs) =
     (if x = NaN then NaN else max_loop (if js_less highest x then x else highest) xs)"

definition Math_max :: "jsnum list \<Rightarrow> jsnum" where
  "Math_max xs = max_loop NegInf xs"

section \<open>The server: \<open>api/index.js\<close>\<close>

text \<open>
  \<open>data.json\<close> is an array of series, each with the arrays of numbers \<open>readings\<close> and
  \<open>zScores\<close>.
  Its content is data, not code: every function that reads \<open>sensorData\<close> takes it as
  a parameter.
\<close>

record series =
  readings :: "real list"
  zScores :: "real list"

text \<open>
  The object \<open>getNextReading\<close> builds, which is also what the chart receives after
  \<open>JSON.stringify\<close> and \<open>JSON.parse\<close>: a field whose value is \<open>undefined\<close> is left out
  by \<open>JSON.stringify\<close> and reads as \<open>undefined\<close> again in the chart.
\<close>

record reading =
  timestamp :: int
  value_f :: "real option"
  zscore :: "real option"

text \<open>An entry of \<open>io.connections\<close>; \<open>interval\<close> is the handle \<open>setInterval\<close> returned.\<close>

record session =
  sensorId :: jsnum
  index :: jsnum
  interval :: nat

text \<open>
  The state of the server process: \<open>io.connections\<close> (a key that was never set and a key
  set to \<open>undefined\<close> both read as \<open>undefined\<close>, here \<open>None\<close>), the intervals that are
  scheduled (handle to the connection id its callback closes over), the next fresh
  handle, and the \<open>reading\<close> events sent so far, each with the id of the socket it went to.
  The lines written by \<open>console.log\<close> are not part of the state.
\<close>

record server =
  connections :: "string \<rightharpoonup> session"
  timers :: "nat \<rightharpoonup> string"
  next_timer :: nat
  emitted :: "(string \<times> reading) list"

definition io_init :: server where
  "io_init = \<lparr>connections = Map.empty, timers = Map.empty, next_timer = 0, emitted = []\<rparr>"

text \<open>
  \<open>getNextReading(data, index)\<close>, with the value of \<open>Date.now()\<close> as a parameter. When
  \<open>data\<close> is \<open>undefined\<close>, reading \<open>data.readings\<close> throws. The result is the pair
  \<open>(newIndex, response)\<close>.
\<close>

definition getNextReading ::
  "series option \<Rightarrow> jsnum \<Rightarrow> int \<Rightarrow> js_error + (jsnum \<times> reading)" where
  "getNextReading dat idx now =
     (case dat of
        None \<Rightarrow> Inl TypeError
      | Some d \<Rightarrow>
          Inr (js_rem (js_add idx 1) (length (readings d)),
               \<lparr>timestamp = now, value_f = js_nth (readings d) idx,
                zscore = js_nth (zScores d) idx\<rparr>))"

text \<open>
  A handler returns the exception it threw, if any, and the state it left. Every throw
  of the server happens before the handler's first write, so the state is then the one
  the handler started from.

  \<open>emitData(connectionId, socket)\<close>: reading \<open>conn.sensorId\<close> throws when the registry has
  no session for \<open>connectionId\<close>; otherwise the series is \<open>sensorData[conn.sensorId - 1]\<close>,
  the response goes to the socket and the session's \<open>index\<close> becomes \<open>newIndex\<close>.
\<close>

definition emitData ::
  "series list \<Rightarrow> int \<Rightarrow> string \<Rightarrow> string \<Rightarrow> server \<Rightarrow> js_error option \<times> server" where
  "emitData sensorData now connectionId socket io =
     (case connections io connectionId of
        None \<Rightarrow> (Some TypeError, io)
      | Some conn \<Rightarrow>
          (case getNextReading (js_nth sensorData (js_sub (sensorId conn) 1)) (index conn) now of
             Inl e \<Rightarrow> (Some e, io)
           | Inr (newIndex, response) \<Rightarrow>
               (None,
                io\<lparr>emitted := emitted io @ [(socket, response)],
                   connections := (connections io)(connectionId \<mapsto> conn\<lparr>index := newIndex\<rparr>)\<rparr>)))"

text \<open>
  The handler of \<open>connection\<close>. Its second argument is the value of
  \<open>Number(socket.handshake.query['sensor'])\<close>: \<open>NaN\<close> when the parameter is absent or
  is not the text of a number, and the number otherwise. The handler checks nothing.
\<close>

definition onConnection :: "string \<Rightarrow> jsnum \<Rightarrow> server \<Rightarrow> js_error option \<times> server" where
  "onConnection connectionId sensor io =
     (None,
      io\<lparr>connections := (connections io)(connectionId \<mapsto>
            \<lparr>sensorId = sensor, index = Num 0, interval = next_timer io\<rparr>),
         timers := (timers io)(next_timer io \<mapsto> connectionId),
         next_timer := Suc (next_timer io)\<rparr>)"

text \<open>
  The handler of \<open>disconnect\<close>: reading \<open>io.connections[connectionId].interval\<close> throws
  when the entry is \<open>undefined\<close>; otherwise the interval is cleared and the entry is set
  to \<open>undefined\<close>.
\<close>

definition onDisconnect :: "string \<Rightarrow> server \<Rightarrow> js_error option \<times> server" where
  "onDisconnect connectionId io =
     (case connections io connectionId of
        None \<Rightarrow> (Some TypeError, io)
      | Some conn \<Rightarrow>
          (None,
           io\<lparr>timers := (timers io)(interval conn := None),
              connections := (connections io)(connectionId := None)\<rparr>))"

text \<open>
  The event loop running the callback of interval \<open>h\<close>: a cleared interval has no
  callback left; a scheduled one calls \<open>emitData(connectionId, socket)\<close> for the socket
  whose id is \<open>connectionId\<close>.
\<close>

definition tick :: "series list \<Rightarrow> int \<Rightarrow> nat \<Rightarrow> server \<Rightarrow> js_error option \<times> server" where
  "tick sensorData now h io =
     (case timers io h of
        None \<Rightarrow> (None, io)
      | Some c \<Rightarrow> emitData sensorData now c c io)"

text \<open>
  What happens to the server, one event after the other: a client connects, a client
  disconnects, the interval \<open>h\<close> fires at time \<open>now\<close>. The library gives every
  connection a socket id of its own, so a \<open>connection\<close> arrives only for an id without a
  session, and it reports \<open>disconnect\<close> for a socket that is connected. A firing can
  always come; for a cleared interval it does nothing. A handler that throws leaves the
  state as it found it.
\<close>

datatype event = Connection string jsnum | Disconnect string | Firing nat int

fun enabled :: "event \<Rightarrow> server \<Rightarrow> bool" where
  "enabled (Connection c sensor) io = (connections io c = None)"
| "enabled (Disconnect c) io = (connections io c \<noteq> None)"
| "enabled (Firing h now) io = True"

fun step :: "series list \<Rightarrow> event \<Rightarrow> server \<Rightarrow> server" where
  "step sensorData (Connection c sensor) io = snd (onConnection c sensor io)"
| "step sensorData (Disconnect c) io = snd (onDisconnect c io)"
| "step sensorData (Firing h now) io = snd (tick sensorData now h io)"

text \<open>The state after a sequence of events; \<open>None\<close> when one of them cannot come.\<close>

fun run :: "series list \<Rightarrow> event list \<Rightarrow> server \<Rightarrow> server option" where
  "run sensorData [] io = Some io"
| "run sensorData (ev # evs) io =
     (if enabled ev io then run sensorData evs (step sensorData ev io) else None)"

text \<open>
  What every run keeps true of the registry: a scheduled interval belongs to a session
  that is there and that holds its handle, a session's interval is scheduled for that
  session, and the handles in use are below the next fresh one.
\<close>

definition registry_inv :: "server \<Rightarrow> bool" where
  "registry_inv io =
     ((\<forall>h c. timers io h = Some c \<longrightarrow>
         (\<exists>conn. connections io c = Some conn \<and> interval conn = h)) \<and>
      (\<forall>c conn. connections io c = Some conn \<longrightarrow> timers io (interval conn) = Some c) \<and>
      (\<forall>h c. timers io h = Some c \<longrightarrow> h < next_timer io))"

text \<open>
  \<open>getNextReading\<close> called once for each firing, the cursor threaded through; the list
  holds the value of \<open>Date.now()\<close> at each firing. The result is the cursor after the
  last firing and the responses in the order they were built.
\<close>

fun emissions :: "series option \<Rightarrow> jsnum \<Rightarrow> int list \<Rightarrow> js_error + (jsnum \<times> reading list)" where
  "emissions dat idx [] = Inr (idx, [])"
| "emissions dat idx (now # nows) =
     (case getNextReading dat idx now of
        Inl e \<Rightarrow> Inl e
      | Inr (newIndex, response) \<Rightarrow>
          (case emissions dat newIndex nows of
             Inl e \<Rightarrow> Inl e
           | Inr (j, rs) \<Rightarrow> Inr (j, response # rs)))"

text \<open>
  The response \<open>getNextReading\<close> builds when the cursor is the natural number \<open>i\<close>:
  \<open>readings[i]\<close> and \<open>zScores[i]\<close>, each \<open>undefined\<close> beyond the end of its array.
\<close>

definition response_at :: "series \<Rightarrow> int \<Rightarrow> nat \<Rightarrow> reading" where
  "response_at d now i =
     \<lparr>timestamp = now,
      value_f = (if i < length (readings d) then Some (readings d ! i) else None),
      zscore = (if i < length (zScores d) then Some (zScores d ! i) else None)\<rparr>"

section \<open>The chart component: \<open>src/components/Chart.js\<close>\<close>

definition MAX_POINTS_TO_STORE :: int where
  "MAX_POINTS_TO_STORE = 50"

definition DEFAULT_X_TICKS :: int where
  "DEFAULT_X_TICKS = 20"

text \<open>
  The field \<open>error\<close> of the state holds the empty string at first, \<open>false\<close> after a
  reading and a message after a transport error.
\<close>

datatype error_field = ErrFalse | ErrString string

record chart_state =
  data :: "reading list"
  lastTimestamp :: "string option"
  connected :: bool
  error :: error_field

definition initial_state :: chart_state where
  "initial_state = \<lparr>data = [], lastTimestamp = None, connected = False, error = ErrString []\<rparr>"

text \<open>
  The props of the component. \<open>x-ticks\<close> is a whole number or absent. The page passes
  numeric strings such as \<open>"20"\<close>, which the subtraction and the comparison coerce to
  their numbers; only the string \<open>"0"\<close>, truthy where the number 0 is falsy, would
  behave differently, and no chart is given it.
\<close>

record props =
  prop_sensorId :: "string option"
  x_ticks :: "int option"

text \<open>
  \<open>setError(type, error)\<close>: \<open>setState\<close> with an object merges the three fields it names
  into the state; \<open>err\<close> is \<open>error.toString()\<close>.
\<close>

definition setError :: "string \<Rightarrow> string \<Rightarrow> chart_state \<Rightarrow> chart_state" where
  "setError errType err st =
     st\<lparr>data := [], connected := False, error := ErrString (err @ '' | '' @ errType)\<rparr>"

text \<open>
  The state update of \<open>storeReading\<close>, for the reading \<open>JSON.parse(response)\<close> gave.
  \<open>pointsToStore\<close> is computed from the length before the \<open>push\<close>, and the slice is
  taken after it. \<open>toLocaleTimeString\<close> renders a timestamp as the local time of day.
\<close>

definition storeReading :: "(int \<Rightarrow> string) \<Rightarrow> reading \<Rightarrow> chart_state \<Rightarrow> chart_state" where
  "storeReading toLocaleTimeString rd prevState =
     (let pointsToStore = max (int (length (data prevState)) - MAX_POINTS_TO_STORE) 0;
          pushed = data prevState @ [rd]
      in prevState\<lparr>data := drop (nat pointsToStore) pushed,
                   connected := True,
                   error := ErrFalse,
                   lastTimestamp :=
                     Some (toLocaleTimeString (timestamp (pushed ! (length pushed - 1))))\<rparr>)"

text \<open>The readings of a whole run, stored one after the other.\<close>

fun storeReadings :: "(int \<Rightarrow> string) \<Rightarrow> reading list \<Rightarrow> chart_state \<Rightarrow> chart_state" where
  "storeReadings f [] st = st"
| "storeReadings f (rd # rds) st = storeReadings f rds (storeReading f rd st)"

text \<open>
  \<open>updateChart\<close> reads \<open>this.state\<close> and \<open>this.props\<close> and calls the chart three times.
  Its locals are given as functions of the state it reads:
  \<open>this.props['x-ticks'] || DEFAULT_X_TICKS\<close>, \<open>xTicks\<close>, the slice \<open>data\<close> (here
  \<open>data_in_view\<close>, as \<open>data\<close> is the field of the state), \<open>highestValueInView\<close> and
  \<open>zLine\<close>. The chart object \<open>tsChart\<close> comes from the module
  \<open>d3-helpers/d3-ts-chart\<close>; the result is the list of the calls made on it.
\<close>

definition x_ticks_or_default :: "props \<Rightarrow> int" where
  "x_ticks_or_default p =
     (case x_ticks p of
        None \<Rightarrow> DEFAULT_X_TICKS
      | Some w \<Rightarrow> if w = 0 then DEFAULT_X_TICKS else w)"

definition xTicks :: "props \<Rightarrow> chart_state \<Rightarrow> int" where
  "xTicks p st = max (int (length (data st)) - x_ticks_or_default p) 0"

definition data_in_view :: "props \<Rightarrow> chart_state \<Rightarrow> reading list" where
  "data_in_view p st = drop (nat (xTicks p st)) (data st)"

definition highestValueInView :: "props \<Rightarrow> chart_state \<Rightarrow> jsnum" where
  "highestValueInView p st = Math_max (map (\<lambda>q. ToNumber (value_f q)) (data_in_view p st))"

record zpoint =
  z_timestamp :: int
  z_value :: jsnum

definition zLine :: "props \<Rightarrow> chart_state \<Rightarrow> zpoint list" where
  "zLine p st =
     map (\<lambda>q. \<lparr>z_timestamp = timestamp q,
               z_value = (if truthy (zscore q) then highestValueInView p st else Num 0)\<rparr>)
       (data_in_view p st)"

datatype series_data = Readings "reading list" | Points "zpoint list"

datatype chart_call = adjustAxes "reading list" | setSeriesData string series_data bool

definition updateChart :: "props \<Rightarrow> chart_state \<Rightarrow> chart_call list" where
  "updateChart p st =
     [adjustAxes (data_in_view p st),
      setSeriesData ''sensor-data'' (Readings (data_in_view p st)) False,
      setSeriesData ''z-score'' (Points (zLine p st)) False]"

text \<open>
  \<open>componentDidMount\<close>: the two guards, then the chart with its two series and the
  socket with its listeners (\<open>connect\<close>).
\<close>

definition SOCKETIO_ERRORS :: "string list" where
  "SOCKETIO_ERRORS =
     [''reconnect_error'', ''connect_error'', ''connect_timeout'', ''connect_failed'', ''error'']"

record mounted =
  chart_series :: "(string \<times> string) list list"
  socket_url :: string
  listeners :: "string list"

definition connect :: "string \<Rightarrow> string \<times> string list" where
  "connect sid = (''http://localhost:4001?sensor='' @ sid, ''reading'' # SOCKETIO_ERRORS)"

definition componentDidMount :: "props \<Rightarrow> js_error + mounted" where
  "componentDidMount p =
     (case prop_sensorId p of
        None \<Rightarrow> Inl (Error ''You have to pass 'sensorId' prop to Chart component'')
      | Some sid \<Rightarrow>
          if (case x_ticks p of None \<Rightarrow> False | Some w \<Rightarrow> w > MAX_POINTS_TO_STORE)
          then Inl (Error ''You cannot display more than 50 'x-ticks'. '')
          else Inr \<lparr>chart_series =
                      [[(''name'', ''sensor-data''), (''type'', ''LINE''), (''id'', ''sensor''),
                        (''stroke'', ''steelblue'')],
                       [(''name'', ''z-score''), (''type'', ''AREA''), (''id'', ''zline''),
                        (''fill'', ''rgba(255, 50, 50, 0.25)''), (''stroke'', ''transparent''),
                        (''strokeWidth'', ''0'')]],
                    socket_url = fst (connect sid),
                    listeners = snd (connect sid)\<rparr>)"

section \<open>Concrete inputs\<close>

text \<open>A Reading Source with two series, and the reading number \<open>k\<close> of a run.\<close>

definition first_series :: series where
  "first_series = \<lparr>readings = [10, 30, 20], zScores = [0, 1, 0]\<rparr>"

definition sample_data :: "series list" where
  "sample_data = [first_series, \<lparr>readings = [5, 7], zScores = [0, 0]\<rparr>]"

definition reading_no :: "nat \<Rightarrow> reading" where
  "reading_no k = \<lparr>timestamp = int k, value_f = Some (real k), zscore = Some 0\<rparr>"

text \<open>The server after connection \<open>a\<close> asked for sensor 1, and after it disconnected.\<close>

definition after_connect :: server where
  "after_connect = snd (onConnection ''a'' (Num 1) io_init)"

definition after_disconnect :: server where
  "after_disconnect = snd (onDisconnect ''a'' after_connect)"

text \<open>
  The server after connection \<open>a\<close> received its first reading, and after it
  disconnected then.
\<close>

definition after_firing :: server where
  "after_firing = snd (tick sample_data 1000 0 after_connect)"

definition after_firing_disconnect :: server where
  "after_firing_disconnect = snd (onDisconnect ''a'' after_firing)"

text \<open>A chart that shows two points, and a buffer of three readings.\<close>

definition two_ticks :: props where
  "two_ticks = \<lparr>prop_sensorId = Some ''1'', x_ticks = Some 2\<rparr>"

definition three_points :: chart_state where
  "three_points =
     \<lparr>data = [\<lparr>timestamp = 1, value_f = Some 5, zscore = Some 0\<rparr>,
              \<lparr>timestamp = 2, value_f = Some 9, zscore = Some 1\<rparr>,
              \<lparr>timestamp = 3, value_f = Some 7, zscore = Some 0\<rparr>],
      lastTimestamp = Some ''12:00:03'', connected = True, error = ErrFalse\<rparr>"

section \<open>The sliding window buffer\<close>

lemma storeReading_data:
  "data (storeReading f rd st) = drop (length (data st) - 50) (data st @ [rd])"
  by (simp add: storeReading_def Let_def MAX_POINTS_TO_STORE_def nat_diff_distrib' max_def)

text \<open>
  From a buffer of at most 51 points, a run of readings leaves the last 51 of all the
  points: the buffer grows to 51 and stays there.
\<close>

lemma storeReadings_last_51:
  "length (data st) \<le> 51 \<Longrightarrow>
   data (storeReadings f rds st) = drop (length (data st) + length rds - 51) (data st @ rds)"
proof (induction rds arbitrary: st)
  case Nil
  then show ?case by simp
next
  case (Cons rd rds)
  let ?st' = "storeReading f rd st"
  have d: "data ?st' = drop (length (data st) - 50) (data st @ [rd])"
    by (rule storeReading_data)
  have b: "length (data ?st') \<le> 51" using Cons.prems by (simp add: d)
  have "data (storeReadings f rds ?st') =
        drop (length (data ?st') + length rds - 51) (data ?st' @ rds)"
    using b by (rule Cons.IH)
  also have "\<dots> = drop (length (data st) + length (rd # rds) - 51) (data st @ rd # rds)"
  proof (cases "length (data st) \<le> 50")
    case True
    then show ?thesis by (simp add: d)
  next
    case False
    then have l: "length (data st) = 51" using Cons.prems by simp
    have "data ?st' @ rds = drop 1 (data st @ rd # rds)" by (simp add: d l)
    moreover have "length (data ?st') = 51" by (simp add: d l)
    ultimately show ?thesis by (simp add: l)
  qed
  finally show ?case by simp
qed

lemma storeReadings_length:
  "length (data (storeReadings f rds initial_state)) = min (length rds) 51"
  using storeReadings_last_51 [of initial_state f rds] by (simp add: initial_state_def)

text \<open>
  Claim C1. The buffer is meant to hold at most \<open>MAX_POINTS_TO_STORE = 50\<close> points, so
  that after 51 appends it would hold appends 2 to 51. The code computes the number of
  points to drop before the \<open>push\<close>: after 51 appends from the empty buffer, the buffer
  holds 51 points and the first of them is still append 1.
\<close>

theorem storeReading_51_appends:
  "length (data (storeReadings f (map reading_no [1..<52]) initial_state)) = 51 \<and>
   hd (data (storeReadings f (map reading_no [1..<52]) initial_state)) = reading_no 1 \<and>
   int (length (data (storeReadings f (map reading_no [1..<52]) initial_state)))
     > MAX_POINTS_TO_STORE"
  using storeReadings_last_51 [of initial_state f "map reading_no [1..<52]"]
  by (simp add: initial_state_def hd_map MAX_POINTS_TO_STORE_def)

text \<open>
  Claim C10. \<open>setError\<close> empties the buffer, sets \<open>connected\<close> to \<open>false\<close> and sets the
  error string, and leaves \<open>lastTimestamp\<close> as it was: after a reading and then a
  transport error, the state still shows the time of that reading.
\<close>

theorem setError_frame:
  "data (setError t e st) = [] \<and>
   connected (setError t e st) = False \<and>
   error (setError t e st) = ErrString (e @ '' | '' @ t) \<and>
   lastTimestamp (setError t e st) = lastTimestamp st \<and>
   lastTimestamp (setError t e (storeReading f rd st)) = Some (f (timestamp rd))"
  by (simp add: setError_def storeReading_def Let_def)

section \<open>The session registry\<close>

text \<open>
  Claim C4, as the code has it. The handler of \<open>connection\<close> validates nothing and has
  no error of its own: whatever \<open>Number\<close> made of the \<open>sensor\<close> parameter (\<open>NaN\<close> for an
  absent or non-numeric one, 0, an id beyond the range), it does not throw, it stores a
  session with that sensor id and cursor 0, and it schedules the interval of that session.
\<close>

theorem onConnection_never_fails:
  "fst (onConnection c sensor io) = None \<and>
   connections (snd (onConnection c sensor io)) c =
     Some \<lparr>sensorId = sensor, index = Num 0, interval = next_timer io\<rparr> \<and>
   timers (snd (onConnection c sensor io)) (next_timer io) = Some c"
  by (simp add: onConnection_def)

text \<open>
  Claim C4 as stated fails: a connection without a \<open>sensor\<close> parameter (\<open>NaN\<close>) and one
  for sensor 0 both get a session and a scheduled interval, and nothing is thrown.
\<close>

theorem onConnection_invalid_sensor_accepted:
  "fst (onConnection ''a'' NaN io_init) = None \<and>
   connections (snd (onConnection ''a'' NaN io_init)) ''a'' =
     Some \<lparr>sensorId = NaN, index = Num 0, interval = 0\<rparr> \<and>
   timers (snd (onConnection ''a'' NaN io_init)) 0 = Some ''a'' \<and>
   fst (onConnection ''a'' (Num 0) io_init) = None \<and>
   connections (snd (onConnection ''a'' (Num 0) io_init)) ''a'' =
     Some \<lparr>sensorId = Num 0, index = Num 0, interval = 0\<rparr> \<and>
   timers (snd (onConnection ''a'' (Num 0) io_init)) 0 = Some ''a''"
  by (simp add: onConnection_def io_init_def)

text \<open>
  What such a session does later: when the sensor id selects no series, every firing
  throws inside \<open>getNextReading\<close> and sends nothing.
\<close>

lemma emitData_unknown_series:
  "connections io c = Some conn \<Longrightarrow> js_nth sd (js_sub (sensorId conn) 1) = None \<Longrightarrow>
   emitData sd now c s io = (Some TypeError, io)"
  by (simp add: emitData_def getNextReading_def)

lemma after_connect_session:
  "connections after_connect ''a'' = Some \<lparr>sensorId = Num 1, index = Num 0, interval = 0\<rparr>"
  by (simp add: after_connect_def onConnection_def io_init_def)

lemma after_disconnect_removed: "connections after_disconnect ''a'' = None"
  by (simp add: after_disconnect_def onDisconnect_def after_connect_session)

text \<open>
  Claim C3, as the code has it. For a connection with a session, the handler of
  \<open>disconnect\<close> does not throw, clears the interval of the session and removes the
  session. It is not idempotent: invoked again, or for a connection id the registry does
  not know, it throws a \<open>TypeError\<close> and changes nothing.
\<close>

theorem onDisconnect_once:
  "(connections io c = Some conn \<longrightarrow>
      fst (onDisconnect c io) = None \<and>
      connections (snd (onDisconnect c io)) c = None \<and>
      timers (snd (onDisconnect c io)) (interval conn) = None \<and>
      onDisconnect c (snd (onDisconnect c io)) = (Some TypeError, snd (onDisconnect c io))) \<and>
   (connections io c = None \<longrightarrow> onDisconnect c io = (Some TypeError, io))"
  by (simp add: onDisconnect_def)

theorem onDisconnect_once_witness:
  "connections after_connect ''a'' = Some \<lparr>sensorId = Num 1, index = Num 0, interval = 0\<rparr> \<and>
   fst (onDisconnect ''a'' after_connect) = None \<and>
   connections after_disconnect ''a'' = None \<and>
   timers after_disconnect 0 = None \<and>
   onDisconnect ''a'' after_disconnect = (Some TypeError, after_disconnect) \<and>
   connections io_init ''b'' = None \<and>
   onDisconnect ''b'' io_init = (Some TypeError, io_init)"
proof -
  have n: "connections io_init ''b'' = None" by (simp add: io_init_def)
  show ?thesis
    using onDisconnect_once [of after_connect "''a''"
        "\<lparr>sensorId = Num 1, index = Num 0, interval = 0\<rparr>"]
      onDisconnect_once [of io_init "''b''"] after_connect_session n
    by (simp add: after_disconnect_def)
qed

text \<open>
  Claim C3 as stated fails: the second \<open>disconnect\<close> of connection \<open>a\<close>, and the
  \<open>disconnect\<close> of a connection that never connected, throw.
\<close>

theorem onDisconnect_twice_throws:
  "fst (onDisconnect ''a'' after_disconnect) = Some TypeError \<and>
   fst (onDisconnect ''b'' io_init) = Some TypeError"
  by (simp add: onDisconnect_def after_disconnect_removed io_init_def)

text \<open>
  After \<open>disconnect\<close>, the interval of the session is cleared: the event loop has no
  callback left to run for it, so no emission of that session is pending.
\<close>

lemma tick_after_disconnect:
  assumes "connections io c = Some conn"
  shows "tick sd now (interval conn) (snd (onDisconnect c io)) = (None, snd (onDisconnect c io))"
  using assms by (simp add: tick_def onDisconnect_def)

text \<open>
  \<open>emitData\<close> itself has no guard for a missing session: called for a connection id
  without one, it would throw at \<open>conn.sensorId\<close> before sending or writing anything.
  Its only caller is the callback of the session's interval, and the lemmas after this
  one show that no run makes the call.
\<close>

lemma emitData_without_session:
  assumes "connections io c = None"
  shows "emitData sd now c s io = (Some TypeError, io)"
  using assms by (simp add: emitData_def)

subsection \<open>The registry along a run\<close>

lemma inv_init: "registry_inv io_init"
  by (simp add: registry_inv_def io_init_def)

lemma inv_timerD:
  "registry_inv io \<Longrightarrow> timers io h = Some c \<Longrightarrow>
   \<exists>conn. connections io c = Some conn \<and> interval conn = h"
  by (simp add: registry_inv_def)

lemma inv_sessionD:
  "registry_inv io \<Longrightarrow> connections io c = Some conn \<Longrightarrow> timers io (interval conn) = Some c"
  by (simp add: registry_inv_def)

lemma inv_boundD: "registry_inv io \<Longrightarrow> timers io h = Some c \<Longrightarrow> h < next_timer io"
  unfolding registry_inv_def by blast

lemma inv_I:
  assumes "\<And>h c. timers io h = Some c \<Longrightarrow>
              \<exists>conn. connections io c = Some conn \<and> interval conn = h"
    and "\<And>c conn. connections io c = Some conn \<Longrightarrow> timers io (interval conn) = Some c"
    and "\<And>h c. timers io h = Some c \<Longrightarrow> h < next_timer io"
  shows "registry_inv io"
  unfolding registry_inv_def using assms by blast

lemma timers_fresh:
  assumes "registry_inv io"
  shows "timers io (next_timer io) = None"
proof (cases "timers io (next_timer io)")
  case None
  then show ?thesis .
next
  case (Some c)
  then have "next_timer io < next_timer io" using assms by (rule inv_boundD [rotated])
  then show ?thesis by simp
qed

lemma inv_onConnection:
  assumes i: "registry_inv io" and f: "connections io c = None"
  shows "registry_inv (snd (onConnection c sensor io))"
proof (rule inv_I)
  let ?io' = "snd (onConnection c sensor io)"
  fix h c'
  assume a: "timers ?io' h = Some c'"
  show "\<exists>conn. connections ?io' c' = Some conn \<and> interval conn = h"
  proof (cases "h = next_timer io")
    case True
    then show ?thesis using a by (simp add: onConnection_def)
  next
    case False
    then have "timers io h = Some c'" using a by (simp add: onConnection_def)
    then obtain conn where "connections io c' = Some conn" and "interval conn = h"
      using inv_timerD [OF i] by blast
    moreover from this have "c' \<noteq> c" using f by auto
    ultimately show ?thesis by (simp add: onConnection_def)
  qed
  show "h < next_timer ?io'"
  proof (cases "h = next_timer io")
    case True
    then show ?thesis by (simp add: onConnection_def)
  next
    case False
    then have "timers io h = Some c'" using a by (simp add: onConnection_def)
    then have "h < next_timer io" using i by (rule inv_boundD [rotated])
    then show ?thesis by (simp add: onConnection_def)
  qed
next
  let ?io' = "snd (onConnection c sensor io)"
  fix c' conn
  assume a: "connections ?io' c' = Some conn"
  show "timers ?io' (interval conn) = Some c'"
  proof (cases "c' = c")
    case True
    then show ?thesis using a by (auto simp add: onConnection_def)
  next
    case False
    then have "connections io c' = Some conn" using a by (simp add: onConnection_def)
    then have t: "timers io (interval conn) = Some c'" using i by (rule inv_sessionD [rotated])
    then have "interval conn \<noteq> next_timer io" using timers_fresh [OF i] by auto
    then show ?thesis using t by (simp add: onConnection_def)
  qed
qed

lemma inv_onDisconnect:
  assumes i: "registry_inv io"
  shows "registry_inv (snd (onDisconnect c io))"
proof (cases "connections io c")
  case None
  then show ?thesis using assms by (simp add: onDisconnect_def)
next
  case (Some conn)
  let ?io' = "snd (onDisconnect c io)"
  have tm: "timers ?io' = (timers io)(interval conn := None)"
    and cn: "connections ?io' = (connections io)(c := None)"
    and nx: "next_timer ?io' = next_timer io"
    using Some by (simp_all add: onDisconnect_def)
  have own: "timers io (interval conn) = Some c" using i Some by (rule inv_sessionD)
  show ?thesis
  proof (rule inv_I)
    fix h c'
    assume a: "timers ?io' h = Some c'"
    then have h: "h \<noteq> interval conn" and t: "timers io h = Some c'"
      by (auto simp add: tm split: if_splits)
    obtain conn' where s: "connections io c' = Some conn'" and v: "interval conn' = h"
      using inv_timerD [OF i t] by blast
    have "c' \<noteq> c" using s v h Some by auto
    then show "\<exists>conn. connections ?io' c' = Some conn \<and> interval conn = h"
      using s v by (simp add: cn)
    show "h < next_timer ?io'" using inv_boundD [OF i t] by (simp add: nx)
  next
    fix c' conn'
    assume "connections ?io' c' = Some conn'"
    then have n: "c' \<noteq> c" and s: "connections io c' = Some conn'"
      by (auto simp add: cn split: if_splits)
    have t: "timers io (interval conn') = Some c'" using i s by (rule inv_sessionD)
    then have "interval conn' \<noteq> interval conn" using own n by auto
    then show "timers ?io' (interval conn') = Some c'" using t by (simp add: tm)
  qed
qed

lemma emitData_frame:
  "timers (snd (emitData sd now c s io)) = timers io \<and>
   next_timer (snd (emitData sd now c s io)) = next_timer io \<and>
   (\<forall>c'. c' \<noteq> c \<longrightarrow> connections (snd (emitData sd now c s io)) c' = connections io c') \<and>
   (\<forall>conn. connections io c = Some conn \<longrightarrow>
      (\<exists>conn'. connections (snd (emitData sd now c s io)) c = Some conn' \<and>
               interval conn' = interval conn)) \<and>
   (connections io c = None \<longrightarrow> connections (snd (emitData sd now c s io)) c = None)"
  by (simp add: emitData_def split: option.splits sum.splits)

lemma inv_emitData:
  assumes i: "registry_inv io"
  shows "registry_inv (snd (emitData sd now c s io))"
proof (rule inv_I)
  let ?io' = "snd (emitData sd now c s io)"
  note fr = emitData_frame [of sd now c s io]
  fix h c'
  assume "timers ?io' h = Some c'"
  then have t: "timers io h = Some c'" using fr by simp
  obtain conn where sc: "connections io c' = Some conn" and v: "interval conn = h"
    using inv_timerD [OF i t] by blast
  show "\<exists>conn. connections ?io' c' = Some conn \<and> interval conn = h"
  proof (cases "c' = c")
    case True
    then show ?thesis using fr sc v by auto
  next
    case False
    then show ?thesis using fr sc v by simp
  qed
  show "h < next_timer ?io'" using inv_boundD [OF i t] fr by simp
next
  let ?io' = "snd (emitData sd now c s io)"
  note fr = emitData_frame [of sd now c s io]
  fix c' conn'
  assume a: "connections ?io' c' = Some conn'"
  show "timers ?io' (interval conn') = Some c'"
  proof (cases "c' = c")
    case False
    then have "connections io c' = Some conn'" using a fr by simp
    then show ?thesis using inv_sessionD [OF i] fr by simp
  next
    case True
    show ?thesis
    proof (cases "connections io c")
      case None
      then show ?thesis using a fr True by simp
    next
      case (Some conn)
      then obtain conn'' where "connections ?io' c = Some conn''"
          and "interval conn'' = interval conn"
        using fr by blast
      then have "interval conn' = interval conn" using a True by simp
      then show ?thesis using inv_sessionD [OF i Some] fr True by simp
    qed
  qed
qed

lemma inv_tick:
  assumes "registry_inv io"
  shows "registry_inv (snd (tick sd now h io))"
  using assms by (simp add: tick_def inv_emitData split: option.splits)

lemma inv_step: "registry_inv io \<Longrightarrow> enabled ev io \<Longrightarrow> registry_inv (step sd ev io)"
  by (cases ev) (simp_all add: inv_onConnection inv_onDisconnect inv_tick)

lemma inv_run: "registry_inv io \<Longrightarrow> run sd evs io = Some io' \<Longrightarrow> registry_inv io'"
proof (induction evs arbitrary: io)
  case Nil
  then show ?case by simp
next
  case (Cons ev evs)
  then show ?case using inv_step by (auto split: if_splits)
qed

lemma no_timer_for_removed:
  assumes "registry_inv io" and "connections io c = None"
  shows "timers io h \<noteq> Some c"
proof
  assume "timers io h = Some c"
  then obtain conn where "connections io c = Some conn"
    using inv_timerD [OF assms(1)] by blast
  then show False using assms(2) by simp
qed

lemma tick_other:
  assumes "registry_inv io" and "connections io c = None"
  shows "connections (snd (tick sd now h io)) c = None \<and>
         (\<forall>r. (c, r) \<in> set (emitted (snd (tick sd now h io))) \<longrightarrow> (c, r) \<in> set (emitted io))"
proof (cases "timers io h")
  case None
  then show ?thesis using assms(2) by (simp add: tick_def)
next
  case (Some c')
  then have "c' \<noteq> c" using no_timer_for_removed [OF assms, of h] by auto
  then show ?thesis using Some assms(2)
    by (auto simp add: tick_def emitData_def split: option.splits sum.splits)
qed

text \<open>
  Claim C2. In every state a run of the server reaches: once the session of a
  connection id is removed, no scheduled interval calls \<open>emitData\<close> for that id, and a
  firing of any interval leaves the id without a session and sends nothing to it. For a
  session that is there, its interval is the one scheduled for it, and right after its
  \<open>disconnect\<close> (which does not throw and removes the session) the firing of that
  interval is dropped: it does not throw and leaves the whole state, with the readings
  sent and the registry, as it was.
\<close>

theorem removed_session_emission_dropped:
  assumes "run sd evs io_init = Some io"
  shows "(connections io c = None \<longrightarrow>
            (\<forall>h. timers io h \<noteq> Some c) \<and>
            (\<forall>h now. connections (snd (tick sd now h io)) c = None \<and>
               (\<forall>r. (c, r) \<in> set (emitted (snd (tick sd now h io))) \<longrightarrow>
                    (c, r) \<in> set (emitted io)))) \<and>
         (\<forall>conn. connections io c = Some conn \<longrightarrow>
            timers io (interval conn) = Some c \<and>
            fst (onDisconnect c io) = None \<and>
            connections (snd (onDisconnect c io)) c = None \<and>
            (\<forall>h. timers (snd (onDisconnect c io)) h \<noteq> Some c) \<and>
            (\<forall>now. tick sd now (interval conn) (snd (onDisconnect c io)) =
                     (None, snd (onDisconnect c io))))"
proof -
  have i: "registry_inv io" using inv_init assms by (rule inv_run)
  have a: "\<forall>h. timers io h \<noteq> Some c" if "connections io c = None"
    using no_timer_for_removed [OF i that] by blast
  have b: "\<forall>h now. connections (snd (tick sd now h io)) c = None \<and>
               (\<forall>r. (c, r) \<in> set (emitted (snd (tick sd now h io))) \<longrightarrow>
                    (c, r) \<in> set (emitted io))" if "connections io c = None"
    using tick_other [OF i that] by blast
  have d: "timers io (interval conn) = Some c \<and>
            fst (onDisconnect c io) = None \<and>
            connections (snd (onDisconnect c io)) c = None \<and>
            (\<forall>h. timers (snd (onDisconnect c io)) h \<noteq> Some c) \<and>
            (\<forall>now. tick sd now (interval conn) (snd (onDisconnect c io)) =
                     (None, snd (onDisconnect c io)))" if s: "connections io c = Some conn" for conn
  proof -
    have t: "timers io (interval conn) = Some c" using i s by (rule inv_sessionD)
    have r: "connections (snd (onDisconnect c io)) c = None" using s by (simp add: onDisconnect_def)
    have "registry_inv (snd (onDisconnect c io))" using i by (rule inv_onDisconnect)
    then have n: "\<forall>h. timers (snd (onDisconnect c io)) h \<noteq> Some c"
      using r no_timer_for_removed by blast
    have "\<forall>now. tick sd now (interval conn) (snd (onDisconnect c io)) =
                     (None, snd (onDisconnect c io))"
      using s by (simp add: tick_def onDisconnect_def)
    then show ?thesis using t r n s by (simp add: onDisconnect_def)
  qed
  show ?thesis using a b d by blast
qed

lemma after_firing_state:
  "connections after_firing ''a'' = Some \<lparr>sensorId = Num 1, index = Num 1, interval = 0\<rparr> \<and>
   timers after_firing 0 = Some ''a'' \<and>
   emitted after_firing = [(''a'', \<lparr>timestamp = 1000, value_f = Some 10, zscore = Some 0\<rparr>)]"
  by (simp add: after_firing_def tick_def emitData_def getNextReading_def trunc_def
      after_connect_def onConnection_def io_init_def sample_data_def first_series_def)

lemma run_to_after_firing:
  "run sample_data [Connection ''a'' (Num 1), Firing 0 1000] io_init = Some after_firing"
  by (simp add: io_init_def after_firing_def after_connect_def)

lemma run_to_after_firing_disconnect:
  "run sample_data [Connection ''a'' (Num 1), Firing 0 1000, Disconnect ''a''] io_init =
     Some after_firing_disconnect"
proof -
  have "enabled (Disconnect ''a'') after_firing" using after_firing_state by simp
  then show ?thesis
    by (simp add: io_init_def after_firing_disconnect_def after_firing_def after_connect_def)
qed

theorem removed_session_emission_dropped_witness:
  "run sample_data [Connection ''a'' (Num 1), Firing 0 1000, Disconnect ''a''] io_init =
     Some after_firing_disconnect \<and>
   connections after_firing_disconnect ''a'' = None \<and>
   timers after_firing_disconnect 0 \<noteq> Some ''a'' \<and>
   connections (snd (tick sample_data 3000 0 after_firing_disconnect)) ''a'' = None \<and>
   run sample_data [Connection ''a'' (Num 1), Firing 0 1000] io_init = Some after_firing \<and>
   connections after_firing ''a'' = Some \<lparr>sensorId = Num 1, index = Num 1, interval = 0\<rparr> \<and>
   timers after_firing 0 = Some ''a'' \<and>
   fst (onDisconnect ''a'' after_firing) = None \<and>
   tick sample_data 3000 0 after_firing_disconnect = (None, after_firing_disconnect) \<and>
   emitted after_firing_disconnect =
     [(''a'', \<lparr>timestamp = 1000, value_f = Some 10, zscore = Some 0\<rparr>)]"
proof -
  have g: "connections after_firing_disconnect ''a'' = None"
    using after_firing_state by (simp add: after_firing_disconnect_def onDisconnect_def)
  have e: "emitted after_firing_disconnect =
     [(''a'', \<lparr>timestamp = 1000, value_f = Some 10, zscore = Some 0\<rparr>)]"
    using after_firing_state by (simp add: after_firing_disconnect_def onDisconnect_def)
  show ?thesis
    using removed_session_emission_dropped [OF run_to_after_firing_disconnect, of "''a''"]
      removed_session_emission_dropped [OF run_to_after_firing, of "''a''"]
      run_to_after_firing_disconnect run_to_after_firing after_firing_state g e
    by (simp add: after_firing_disconnect_def)
qed

section \<open>The emission loop\<close>

lemma js_nth_nat: "js_nth xs (Num (real i)) = (if i < length xs then Some (xs ! i) else None)"
  by simp

text \<open>On a natural cursor and a non-empty array, \<open>(index + 1) % length\<close> is \<open>mod\<close>.\<close>

lemma js_rem_nat:
  assumes "0 < n"
  shows "js_rem (js_add (Num (real i)) 1) n = Num (real ((i + 1) mod n))"
proof -
  have f: "\<lfloor>real (i + 1) / real n\<rfloor> = int ((i + 1) div n)"
    by (rule floor_divide_of_nat_eq)
  have "real ((i + 1) mod n) + real n * real ((i + 1) div n) = real (i + 1)"
    by (simp only: of_nat_mult [symmetric] of_nat_add [symmetric] mod_mult_div_eq)
  then have g: "real (i + 1) - real n * real ((i + 1) div n) = real ((i + 1) mod n)"
    by linarith
  have "\<not> real (i + 1) / real n < 0"
    by (simp add: not_less)
  then have t: "trunc (real (i + 1) / real n) = int ((i + 1) div n)"
    unfolding trunc_def using f by (simp only: if_False)
  have "js_rem (Num (real (i + 1))) n = Num (real ((i + 1) mod n))"
    using assms t g by simp
  then show ?thesis by (simp add: add.commute)
qed

lemma getNextReading_nat:
  assumes "0 < length (readings d)"
  shows "getNextReading (Some d) (Num (real i)) now =
      Inr (Num (real ((i + 1) mod length (readings d))), response_at d now i)"
  unfolding getNextReading_def response_at_def using js_rem_nat [OF assms, of i]
  by (simp only: option.case js_nth_nat)

text \<open>With a series at hand every firing returns: no number of firings ends the stream.\<close>

lemma emissions_total:
  "\<exists>c rs. emissions (Some d) idx nows = Inr (c, rs) \<and> length rs = length nows"
proof (induction nows arbitrary: idx)
  case Nil
  show ?case by simp
next
  case (Cons now nows)
  obtain c rs
    where "emissions (Some d) (js_rem (js_add idx 1) (length (readings d))) nows = Inr (c, rs)"
      and "length rs = length nows"
    using Cons.IH by blast
  then show ?case by (simp add: getNextReading_def)
qed

text \<open>From a cursor \<open>i\<close> in range, firing \<open>j\<close> reads position \<open>(i + j) mod n\<close>.\<close>

lemma emissions_from:
  assumes n: "0 < length (readings d)"
  shows "i < length (readings d) \<Longrightarrow> emissions (Some d) (Num (real i)) nows = Inr (c, rs) \<Longrightarrow>
     c = Num (real ((i + length nows) mod length (readings d))) \<and>
     length rs = length nows \<and>
     (\<forall>j<length nows. rs ! j = response_at d (nows ! j) ((i + j) mod length (readings d)))"
proof (induction nows arbitrary: i c rs)
  case Nil
  then show ?case by simp
next
  case (Cons now nows)
  let ?n = "length (readings d)"
  let ?i' = "(i + 1) mod ?n"
  have g: "getNextReading (Some d) (Num (real i)) now = Inr (Num (real ?i'), response_at d now i)"
    by (rule getNextReading_nat [OF n])
  obtain c' rs' where e: "emissions (Some d) (Num (real ?i')) nows = Inr (c', rs')"
    using emissions_total by blast
  have i': "?i' < ?n" using n by simp
  note ih = Cons.IH [OF i' e]
  have cr: "c = c'" "rs = response_at d now i # rs'"
    using Cons.prems(2) g e by simp_all
  have c: "c = Num (real ((i + length (now # nows)) mod ?n))"
    using cr ih by (simp add: mod_add_left_eq)
  have l: "length rs = length (now # nows)" using cr ih by simp
  have "rs ! j = response_at d ((now # nows) ! j) ((i + j) mod ?n)"
    if "j < length (now # nows)" for j
  proof (cases j)
    case 0
    then show ?thesis using cr Cons.prems(1) by simp
  next
    case (Suc k)
    then have "k < length nows" using that by simp
    then have "rs' ! k = response_at d (nows ! k) ((?i' + k) mod ?n)" using ih by blast
    moreover have "(?i' + k) mod ?n = (i + Suc k) mod ?n" by (simp add: mod_add_left_eq)
    ultimately show ?thesis using Suc cr by simp
  qed
  then show ?case using c l by blast
qed

text \<open>
  Claim C5. For a series with \<open>n \<ge> 1\<close> readings and the cursor starting at 0, any number
  of firings returns (the stream does not end by itself), the cursor after them is their
  number modulo \<open>n\<close>, so it is 0 again after \<open>n\<close> firings; firing \<open>j\<close> carries
  \<open>readings[j mod n]\<close>, and the value and z-score of firing \<open>j + n\<close> are those of
  firing \<open>j\<close>.
\<close>

theorem getNextReading_cyclic:
  assumes "1 \<le> length (readings d)"
  shows "\<exists>rs. emissions (Some d) (Num 0) nows =
              Inr (Num (real (length nows mod length (readings d))), rs) \<and>
            length rs = length nows \<and>
            (length nows = length (readings d) \<longrightarrow>
               emissions (Some d) (Num 0) nows = Inr (Num 0, rs)) \<and>
            (\<forall>j<length nows. value_f (rs ! j) = Some (readings d ! (j mod length (readings d)))) \<and>
            (\<forall>j. j + length (readings d) < length nows \<longrightarrow>
               value_f (rs ! (j + length (readings d))) = value_f (rs ! j) \<and>
               zscore (rs ! (j + length (readings d))) = zscore (rs ! j))"
proof -
  let ?n = "length (readings d)"
  have n: "0 < ?n" using assms by linarith
  obtain c rs where e: "emissions (Some d) (Num (real 0)) nows = Inr (c, rs)"
    using emissions_total by blast
  from emissions_from [OF n n e]
  have c: "c = Num (real (length nows mod ?n))"
    and l: "length rs = length nows"
    and r: "\<And>j. j < length nows \<Longrightarrow> rs ! j = response_at d (nows ! j) (j mod ?n)"
    by simp_all
  have e0: "emissions (Some d) (Num 0) nows = Inr (Num (real (length nows mod ?n)), rs)"
    using e c by simp
  have full: "length nows = ?n \<longrightarrow> emissions (Some d) (Num 0) nows = Inr (Num 0, rs)"
    using e0 by auto
  have v: "\<forall>j<length nows. value_f (rs ! j) = Some (readings d ! (j mod ?n))"
    using r n by (simp add: response_at_def)
  have rep: "value_f (rs ! (j + ?n)) = value_f (rs ! j) \<and> zscore (rs ! (j + ?n)) = zscore (rs ! j)"
    if "j + ?n < length nows" for j
  proof -
    have "j < length nows" using that by simp
    then show ?thesis using r [of j] r [OF that] by (simp add: response_at_def)
  qed
  show ?thesis using e0 l full v rep by blast
qed

theorem getNextReading_cyclic_witness:
  "1 \<le> length (readings first_series) \<and>
   emissions (Some first_series) (Num 0) [100, 200, 300] =
     Inr (Num 0, [\<lparr>timestamp = 100, value_f = Some 10, zscore = Some 0\<rparr>,
                  \<lparr>timestamp = 200, value_f = Some 30, zscore = Some 1\<rparr>,
                  \<lparr>timestamp = 300, value_f = Some 20, zscore = Some 0\<rparr>]) \<and>
   (\<exists>rs. emissions (Some first_series) (Num 0) [100, 200, 300, 400, 500] = Inr (Num 2, rs) \<and>
      length rs = 5 \<and>
      value_f (rs ! 3) = value_f (rs ! 0) \<and> zscore (rs ! 3) = zscore (rs ! 0) \<and>
      value_f (rs ! 4) = value_f (rs ! 1) \<and> zscore (rs ! 4) = zscore (rs ! 1))"
proof -
  have h: "1 \<le> length (readings first_series)" by (simp add: first_series_def)
  have a: "emissions (Some first_series) (Num 0) [100, 200, 300] =
     Inr (Num 0, [\<lparr>timestamp = 100, value_f = Some 10, zscore = Some 0\<rparr>,
                  \<lparr>timestamp = 200, value_f = Some 30, zscore = Some 1\<rparr>,
                  \<lparr>timestamp = 300, value_f = Some 20, zscore = Some 0\<rparr>])"
    by (simp add: first_series_def getNextReading_def trunc_def)
  obtain rs where e: "emissions (Some first_series) (Num 0) [100, 200, 300, 400, 500] =
        Inr (Num (real (length [100, 200, 300, 400, 500 :: int]
                          mod length (readings first_series))), rs)"
    and l: "length rs = length [100, 200, 300, 400, 500 :: int]"
    and rep: "\<forall>j. j + length (readings first_series) < length [100, 200, 300, 400, 500 :: int] \<longrightarrow>
               value_f (rs ! (j + length (readings first_series))) = value_f (rs ! j) \<and>
               zscore (rs ! (j + length (readings first_series))) = zscore (rs ! j)"
    using getNextReading_cyclic [OF h, of "[100, 200, 300, 400, 500]"] by blast
  have n: "length (readings first_series) = 3" by (simp add: first_series_def)
  have "value_f (rs ! 3) = value_f (rs ! 0) \<and> zscore (rs ! 3) = zscore (rs ! 0)"
    using rep [rule_format, of 0] by (simp add: n)
  moreover have "value_f (rs ! 4) = value_f (rs ! 1) \<and> zscore (rs ! 4) = zscore (rs ! 1)"
    using rep [rule_format, of 1] by (simp add: n)
  moreover have "emissions (Some first_series) (Num 0) [100, 200, 300, 400, 500] = Inr (Num 2, rs)"
    using e by (simp add: n)
  ultimately show ?thesis using h a l by auto
qed

text \<open>
  Claim C6. For a session with sensor id \<open>k\<close> in \<open>1..N\<close> and cursor \<open>i\<close> within the
  series \<open>sensorData[k - 1]\<close>, one firing of \<open>emitData\<close> does not throw, sends to the
  socket the reading with \<open>timestamp = now\<close>, \<open>value = readings[i]\<close> and
  \<open>zscore = zScores[i]\<close> of that series, and sets the cursor of the session to
  \<open>(i + 1) mod length(readings)\<close>; nothing else changes.
\<close>

theorem emitData_emits_and_advances:
  assumes "connections io c = Some conn"
    and "sensorId conn = Num (real k)" and "1 \<le> k" and "k \<le> length sensorData"
    and "index conn = Num (real i)"
    and "i < length (readings (sensorData ! (k - 1)))"
    and "i < length (zScores (sensorData ! (k - 1)))"
  shows "emitData sensorData now c s io =
     (None,
      io\<lparr>emitted := emitted io @
             [(s, \<lparr>timestamp = now,
                   value_f = Some (readings (sensorData ! (k - 1)) ! i),
                   zscore = Some (zScores (sensorData ! (k - 1)) ! i)\<rparr>)],
         connections := (connections io)(c \<mapsto>
             conn\<lparr>index := Num (real ((i + 1) mod length (readings (sensorData ! (k - 1)))))\<rparr>)\<rparr>)"
proof -
  let ?d = "sensorData ! (k - 1)"
  have "real k - 1 = real (k - 1)" using assms(3) by (simp add: of_nat_diff)
  moreover have "js_sub (sensorId conn) 1 = Num (real k - 1)" using assms(2) by simp
  ultimately have "js_sub (sensorId conn) 1 = Num (real (k - 1))" by (simp only:)
  moreover have n: "0 < length (readings ?d)" using assms(6) by linarith
  moreover have "k - 1 < length sensorData" using assms(3,4) by linarith
  ultimately have s: "js_nth sensorData (js_sub (sensorId conn) 1) = Some ?d"
    by (simp only: js_nth_nat if_True)
  have g0: "getNextReading (Some ?d) (Num (real i)) now =
      Inr (Num (real ((i + 1) mod length (readings ?d))), response_at ?d now i)"
    by (rule getNextReading_nat [OF n])
  have g: "getNextReading (Some ?d) (index conn) now =
      Inr (Num (real ((i + 1) mod length (readings ?d))), response_at ?d now i)"
    using g0 assms(5) by (simp only:)
  have r: "response_at ?d now i =
      \<lparr>timestamp = now, value_f = Some (readings ?d ! i), zscore = Some (zScores ?d ! i)\<rparr>"
    using assms(6,7) by (simp add: response_at_def)
  show ?thesis
    unfolding emitData_def by (simp only: assms(1) s g r option.case sum.case prod.case)
qed

theorem emitData_emits_and_advances_witness:
  "connections after_connect ''a'' = Some \<lparr>sensorId = Num 1, index = Num 0, interval = 0\<rparr> \<and>
   (1::nat) \<le> length sample_data \<and>
   (0::nat) < length (readings (sample_data ! (1 - 1))) \<and>
   (0::nat) < length (zScores (sample_data ! (1 - 1))) \<and>
   emitData sample_data 1000 ''a'' ''a'' after_connect =
     (None,
      after_connect\<lparr>emitted := [(''a'', \<lparr>timestamp = 1000, value_f = Some 10, zscore = Some 0\<rparr>)],
         connections := (connections after_connect)(''a'' \<mapsto>
             \<lparr>sensorId = Num 1, index = Num 1, interval = 0\<rparr>)\<rparr>)"
proof -
  have e: "emitted after_connect = []"
    by (simp add: after_connect_def onConnection_def io_init_def)
  show ?thesis
    using emitData_emits_and_advances [OF after_connect_session, of 1 sample_data 0 1000 "''a''"] e
    by (simp add: after_connect_session sample_data_def first_series_def)
qed

section \<open>The view projector\<close>

lemma max_loop_Num: "max_loop (Num h) (map Num rs) = Num (fold max rs h)"
  by (induction rs arbitrary: h) (simp_all add: max_def)

lemma Math_max_Num: "rs \<noteq> [] \<Longrightarrow> Math_max (map Num rs) = Num (Max (set rs))"
proof (cases rs)
  case Nil
  assume "rs \<noteq> []" with Nil show ?thesis by simp
next
  case (Cons r rs')
  have "Math_max (map Num (r # rs')) = Num (fold max rs' r)"
    by (simp add: Math_max_def max_loop_Num)
  also have "fold max rs' r = Max (set (r # rs'))"
    by (simp only: Max.set_eq_fold)
  finally show ?thesis using Cons by simp
qed

text \<open>
  When the window is not empty and every point in it has a number as its value,
  \<open>highestValueInView\<close> is the greatest of these values.
\<close>

lemma highest_is_Max:
  assumes "data_in_view p st \<noteq> []" and "\<forall>q\<in>set (data_in_view p st). value_f q \<noteq> None"
  shows "highestValueInView p st = Num (Max ((\<lambda>q. the (value_f q)) ` set (data_in_view p st)))"
proof -
  let ?rs = "map (\<lambda>q. the (value_f q)) (data_in_view p st)"
  have "map (\<lambda>q. ToNumber (value_f q)) (data_in_view p st) = map Num ?rs"
    using assms(2) by auto
  moreover have "Math_max (map Num ?rs) = Num (Max (set ?rs))"
    using assms(1) by (intro Math_max_Num) simp
  ultimately have "highestValueInView p st = Num (Max (set ?rs))"
    by (simp only: highestValueInView_def)
  then show ?thesis by simp
qed

lemma highest_of_nothing: "data_in_view p st = [] \<Longrightarrow> highestValueInView p st = NegInf"
  by (simp add: highestValueInView_def Math_max_def)

lemma data_in_view_drop:
  assumes "x_ticks p = Some w" and "1 \<le> w"
  shows "data_in_view p st = drop (length (data st) - nat w) (data st)"
proof -
  have "x_ticks_or_default p = w" using assms by (simp add: x_ticks_or_default_def)
  then have "nat (xTicks p st) = length (data st) - nat w"
    using assms(2) by (simp add: xTicks_def max_def nat_diff_distrib')
  then show ?thesis by (simp add: data_in_view_def)
qed

lemma data_in_view_two_of_three:
  "data_in_view two_ticks three_points =
     [\<lparr>timestamp = 2, value_f = Some 9, zscore = Some 1\<rparr>,
      \<lparr>timestamp = 3, value_f = Some 7, zscore = Some 0\<rparr>]"
  by (simp add: data_in_view_def xTicks_def x_ticks_or_default_def two_ticks_def three_points_def)

text \<open>
  Claim C7. For a display width \<open>w \<ge> 1\<close> and a buffer of \<open>len\<close> points, \<open>updateChart\<close>
  passes to the chart the points from position \<open>max(len - w, 0)\<close> to the end: the last
  \<open>w\<close> points in their order, or all of them when there are fewer than \<open>w\<close>; and
  \<open>highestValueInView\<close> is the maximum of the values of exactly these points.
\<close>

theorem updateChart_window:
  assumes "x_ticks p = Some w" and "1 \<le> w"
  shows "data_in_view p st = drop (length (data st) - nat w) (data st) \<and>
         length (data_in_view p st) = min (nat w) (length (data st)) \<and>
         updateChart p st =
           [adjustAxes (drop (length (data st) - nat w) (data st)),
            setSeriesData ''sensor-data''
              (Readings (drop (length (data st) - nat w) (data st))) False,
            setSeriesData ''z-score'' (Points (zLine p st)) False] \<and>
         (data_in_view p st \<noteq> [] \<and> (\<forall>q\<in>set (data_in_view p st). value_f q \<noteq> None) \<longrightarrow>
            highestValueInView p st =
              Num (Max ((\<lambda>q. the (value_f q)) ` set (data_in_view p st))))"
proof -
  have v: "data_in_view p st = drop (length (data st) - nat w) (data st)"
    using assms by (rule data_in_view_drop)
  have l: "length (data_in_view p st) = min (nat w) (length (data st))"
    by (simp add: v)
  have u: "updateChart p st =
           [adjustAxes (drop (length (data st) - nat w) (data st)),
            setSeriesData ''sensor-data''
              (Readings (drop (length (data st) - nat w) (data st))) False,
            setSeriesData ''z-score'' (Points (zLine p st)) False]"
    by (simp add: updateChart_def v)
  show ?thesis using v l u highest_is_Max [of p st] by blast
qed

theorem updateChart_window_witness:
  "x_ticks two_ticks = Some 2 \<and> (1::int) \<le> 2 \<and>
   data_in_view two_ticks three_points =
     [\<lparr>timestamp = 2, value_f = Some 9, zscore = Some 1\<rparr>,
      \<lparr>timestamp = 3, value_f = Some 7, zscore = Some 0\<rparr>] \<and>
   highestValueInView two_ticks three_points = Num 9"
proof -
  have x: "x_ticks two_ticks = Some 2" by (simp add: two_ticks_def)
  have "highestValueInView two_ticks three_points = Num 9"
    using updateChart_window [OF x, of three_points] by (simp add: data_in_view_two_of_three)
  then show ?thesis using x data_in_view_two_of_three by simp
qed

text \<open>
  Claim C8. The secondary series has one point for each visible point, with the same
  timestamp, and its value is \<open>highestValueInView\<close> when the z-score is truthy and 0
  otherwise: every value is 0 or the maximum of the visible values, whatever the
  magnitude of the z-score.
\<close>

theorem zLine_binary:
  "length (zLine p st) = length (data_in_view p st) \<and>
   (\<forall>i<length (data_in_view p st).
      z_timestamp (zLine p st ! i) = timestamp (data_in_view p st ! i) \<and>
      z_value (zLine p st ! i) =
        (if truthy (zscore (data_in_view p st ! i)) then highestValueInView p st else Num 0)) \<and>
   (\<forall>z\<in>set (zLine p st). z_value z = Num 0 \<or> z_value z = highestValueInView p st) \<and>
   ((\<forall>q\<in>set (data_in_view p st). value_f q \<noteq> None) \<longrightarrow>
      (\<forall>z\<in>set (zLine p st). z_value z = Num 0 \<or>
          z_value z = Num (Max ((\<lambda>q. the (value_f q)) ` set (data_in_view p st)))))"
proof -
  have a: "length (zLine p st) = length (data_in_view p st)" by (simp add: zLine_def)
  have b: "\<forall>i<length (data_in_view p st).
      z_timestamp (zLine p st ! i) = timestamp (data_in_view p st ! i) \<and>
      z_value (zLine p st ! i) =
        (if truthy (zscore (data_in_view p st ! i)) then highestValueInView p st else Num 0)"
    by (simp add: zLine_def)
  have c: "\<forall>z\<in>set (zLine p st). z_value z = Num 0 \<or> z_value z = highestValueInView p st"
    by (auto simp add: zLine_def)
  have d: "\<forall>z\<in>set (zLine p st). z_value z = Num 0 \<or>
          z_value z = Num (Max ((\<lambda>q. the (value_f q)) ` set (data_in_view p st)))"
    if h: "\<forall>q\<in>set (data_in_view p st). value_f q \<noteq> None"
  proof (cases "data_in_view p st = []")
    case True
    then show ?thesis by (simp add: zLine_def)
  next
    case False
    then show ?thesis using c highest_is_Max [OF False h] by simp
  qed
  show ?thesis using a b c d by blast
qed

theorem zLine_binary_witness:
  "zLine two_ticks three_points =
     [\<lparr>z_timestamp = 2, z_value = Num 9\<rparr>, \<lparr>z_timestamp = 3, z_value = Num 0\<rparr>] \<and>
   z_value (zLine two_ticks three_points ! 0) = highestValueInView two_ticks three_points \<and>
   z_value (zLine two_ticks three_points ! 0) \<noteq>
     ToNumber (zscore (data_in_view two_ticks three_points ! 0))"
proof -
  have h: "highestValueInView two_ticks three_points = Num 9"
    by (simp add: highestValueInView_def data_in_view_two_of_three Math_max_def)
  have z: "zLine two_ticks three_points =
     [\<lparr>z_timestamp = 2, z_value = Num 9\<rparr>, \<lparr>z_timestamp = 3, z_value = Num 0\<rparr>]"
    by (simp add: zLine_def data_in_view_two_of_three h)
  show ?thesis
    using zLine_binary [of two_ticks three_points] z h by (simp add: data_in_view_two_of_three)
qed

section \<open>The guards of \<open>componentDidMount\<close>\<close>

text \<open>
  Claim C9, as the code has it. The component does enforce the limit on the display
  width, when it mounts: with a \<open>sensorId\<close>, \<open>componentDidMount\<close> throws for every
  \<open>x-ticks\<close> above 50, and goes on to build the chart and connect for an absent width
  and for every width of at most 50.
\<close>

theorem componentDidMount_enforces_width:
  assumes "prop_sensorId p = Some sid"
  shows "(\<forall>w. x_ticks p = Some w \<and> 50 < w \<longrightarrow>
            componentDidMount p = Inl (Error ''You cannot display more than 50 'x-ticks'. '')) \<and>
         (x_ticks p = None \<or> (\<exists>w. x_ticks p = Some w \<and> w \<le> 50) \<longrightarrow>
            (\<exists>m. componentDidMount p = Inr m))"
  using assms by (auto simp add: componentDidMount_def MAX_POINTS_TO_STORE_def)

theorem componentDidMount_enforces_width_witness:
  "prop_sensorId \<lparr>prop_sensorId = Some ''1'', x_ticks = Some 51\<rparr> = Some ''1'' \<and>
   componentDidMount \<lparr>prop_sensorId = Some ''1'', x_ticks = Some 51\<rparr> =
     Inl (Error ''You cannot display more than 50 'x-ticks'. '') \<and>
   prop_sensorId two_ticks = Some ''1'' \<and>
   (\<exists>m. componentDidMount two_ticks = Inr m)"
proof -
  have a: "prop_sensorId \<lparr>prop_sensorId = Some ''1'', x_ticks = Some 51\<rparr> = Some ''1''" by simp
  have b: "prop_sensorId two_ticks = Some ''1''" by (simp add: two_ticks_def)
  have c: "x_ticks two_ticks = Some 2" by (simp add: two_ticks_def)
  show ?thesis
    using componentDidMount_enforces_width [OF a] componentDidMount_enforces_width [OF b] b c
    by simp
qed

text \<open>
  Claim C9 as stated fails: a chart asked to show 51 points is rejected when it mounts.
\<close>

theorem componentDidMount_rejects_51:
  "componentDidMount \<lparr>prop_sensorId = Some ''1'', x_ticks = Some 51\<rparr> =
     Inl (Error ''You cannot display more than 50 'x-ticks'. '')"
  by (simp add: componentDidMount_def MAX_POINTS_TO_STORE_def)

end
